theory Spec2Isabelle
  imports Main "HOL-Library.Sublist"
begin

section \<open>The dynamic query builder of package gh\<close>

subsection \<open>Data model\<close>

text \<open>
  The second parameter of \<open>Where\<close> has the Go type \<open>interface{}\<close>: a value together
  with its dynamic type, or the nil interface. The datatype below keeps the dynamic type
  as the constructor. \<open>GNamed n u\<close> is a value of a defined type named \<open>n\<close> (as in
  \<open>type Code string\<close>) whose underlying value is \<open>u\<close>; its dynamic type is \<open>n\<close>, not
  the type of \<open>u\<close>.

  Go compares an interface value with a value of a non-interface comparable type by
  dynamic type first and by value second, and never panics on it. The untyped constant
  \<open>""\<close> in \<open>value != ""\<close> takes its default type \<open>string\<close>, so that comparison is
  inequality with \<open>GString []\<close> in the model.
\<close>

datatype gvalue =
    GNil
  | GString string
  | GInt int
  | GBool bool
  | GNamed string gvalue

text \<open>
  \<^verbatim>\<open>
  type QueryBuilder struct {
      query string        // Initial query
      args  []interface{} // Arguments
  }
  \<close>
  A Go string is a sequence of bytes, as an Isabelle \<open>string\<close> is.
\<close>

record QueryBuilder =
  query :: string
  args :: "gvalue list"

subsection \<open>Operations\<close>

text \<open>
  Every method has a pointer receiver, assigns to the receiver's fields and returns the
  receiver. The model passes the state explicitly: a method takes the builder that its
  receiver points to and returns the builder after the call. The receiver as a pointer,
  \<open>nil\<close> included, has a subsection of its own below.
\<close>

definition NewQueryBuilder :: "string \<Rightarrow> QueryBuilder" where
  "NewQueryBuilder baseQuery = \<lparr>query = baseQuery, args = []\<rparr>"

definition Where :: "QueryBuilder \<Rightarrow> string \<Rightarrow> gvalue \<Rightarrow> QueryBuilder" where
  "Where qb condition val =
     (if val \<noteq> GString [] then
        (let qb1 = (if length (args qb) > 0
                    then qb\<lparr>query := query qb @ '' AND '' @ condition\<rparr>
                    else qb\<lparr>query := query qb @ '' WHERE '' @ condition\<rparr>)
         in qb1\<lparr>args := args qb1 @ [val]\<rparr>)
      else qb)"

text \<open>
  \<open>strings.Join\<close> belongs to the Go standard library, not to this repository. Its
  definition there returns the empty string for no element, the element itself for a
  single one, and otherwise writes the first element and then, for each further element,
  the separator and the element.
\<close>

fun Join :: "string list \<Rightarrow> string \<Rightarrow> string" where
  "Join [] sep = []"
| "Join [e] sep = e"
| "Join (e # es) sep = foldl (\<lambda>b s. b @ sep @ s) e es"

definition GroupBy :: "QueryBuilder \<Rightarrow> string list \<Rightarrow> QueryBuilder" where
  "GroupBy qb columns =
     (if length columns > 0
      then qb\<lparr>query := query qb @ '' GROUP BY '' @ Join columns '', ''\<rparr>
      else qb)"

definition OrderBy :: "QueryBuilder \<Rightarrow> string list \<Rightarrow> QueryBuilder" where
  "OrderBy qb columns =
     (if length columns > 0
      then qb\<lparr>query := query qb @ '' ORDER BY '' @ Join columns '', ''\<rparr>
      else qb)"

text \<open>
  \<open>Build\<close> returns two values and has a pointer receiver too, so the model returns the
  pair together with the builder as the call leaves it.
\<close>

definition Build :: "QueryBuilder \<Rightarrow> (string \<times> gvalue list) \<times> QueryBuilder" where
  "Build qb = ((query qb, args qb), qb)"

subsection \<open>Chains of calls\<close>

text \<open>
  A chain \<open>qb.Where(p1, v1).Where(p2, v2)...\<close> (or the same calls made one statement
  after the other, as the tests do) applies the calls from left to right to one builder.
\<close>

definition Wheres :: "QueryBuilder \<Rightarrow> (string \<times> gvalue) list \<Rightarrow> QueryBuilder" where
  "Wheres qb ws = foldl (\<lambda>b w. Where b (fst w) (snd w)) qb ws"

subsection \<open>Vocabulary of the specification\<close>

text \<open>
  The calls of a chain that \<open>Where\<close> does not skip, in call order.
\<close>

definition accepted :: "(string \<times> gvalue) list \<Rightarrow> (string \<times> gvalue) list" where
  "accepted ws = filter (\<lambda>w. snd w \<noteq> GString []) ws"

text \<open>
  The clause texts the specification expects for a list of accepted calls: the first
  fragment after \<open>" WHERE "\<close> when no argument was recorded before, every other one
  after \<open>" AND "\<close>.
\<close>

fun where_texts :: "bool \<Rightarrow> (string \<times> gvalue) list \<Rightarrow> string list" where
  "where_texts first [] = []"
| "where_texts first (w # ws) =
     ((if first then '' WHERE '' else '' AND '') @ fst w) # where_texts False ws"

text \<open>
  The placeholder of a fragment is the character \<open>?\<close>, as in the tests and the usage
  example of the source. \<open>bind_args\<close> is the positional binding that the consumer of
  \<open>Build\<close>'s result performs (\<open>db.Raw(query, args...)\<close>): the placeholders of the
  string take the arguments from left to right, and a placeholder with no argument left
  stays as it is. It is the specification's reading of "placeholder order", not code
  of the repository.
\<close>

definition placeholders :: "string \<Rightarrow> nat" where
  "placeholders s = length (filter (\<lambda>c. c = CHR ''?'') s)"

fun bind_args :: "string \<Rightarrow> gvalue list \<Rightarrow> (char + gvalue) list" where
  "bind_args [] vs = []"
| "bind_args (c # cs) vs =
     (if c = CHR ''?''
      then (case vs of
              [] \<Rightarrow> Inl c # bind_args cs []
            | v # vs' \<Rightarrow> Inr v # bind_args cs vs')
      else Inl c # bind_args cs vs)"

text \<open>
  The specification's contract on the pair that \<open>Build\<close> returns after a chain of
  \<open>Where\<close> calls on a fresh builder: binding the returned arguments positionally to
  the returned query string leaves the base query as it is and gives the placeholder of
  the k-th accepted fragment the k-th returned argument.
\<close>

definition placeholders_match_arguments :: "string \<Rightarrow> (string \<times> gvalue) list \<Rightarrow> bool" where
  "placeholders_match_arguments Q ws =
     (case fst (Build (Wheres (NewQueryBuilder Q) ws)) of
        (q, a) \<Rightarrow>
          bind_args q a =
            map Inl Q @
            concat (map2 (\<lambda>t v. bind_args t [v]) (where_texts True (accepted ws)) a))"

subsection \<open>The receiver as a pointer\<close>

text \<open>
  The receiver of every method has the type \<open>*QueryBuilder\<close>, and \<open>nil\<close> is a value of
  that type. No method tests its receiver, and reading or assigning a field through a
  nil pointer (\<open>qb.args\<close>, \<open>qb.query\<close>) panics at run time. The functions of this
  subsection follow the method bodies once more with the receiver as a pointer: \<open>None\<close>
  is \<open>nil\<close>, \<open>Some b\<close> points to the builder \<open>b\<close>, and a method returns \<open>Inl\<close> of the
  panic or \<open>Inr\<close> of what it hands back. A body reaches a field only on some of its
  paths: \<open>Where\<close> with the empty string and \<open>GroupBy\<close> and \<open>OrderBy\<close> with no column
  return the receiver without touching it.
\<close>

datatype panic = NilPointerDereference

text \<open>
  \<open>NewQueryBuilder\<close> returns the address of a composite literal, which is never \<open>nil\<close>.
\<close>

definition NewQueryBuilder_ptr :: "string \<Rightarrow> QueryBuilder option" where
  "NewQueryBuilder_ptr baseQuery = Some \<lparr>query = baseQuery, args = []\<rparr>"

definition Where_ptr ::
  "QueryBuilder option \<Rightarrow> string \<Rightarrow> gvalue \<Rightarrow> panic + QueryBuilder option" where
  "Where_ptr qb condition val =
     (if val \<noteq> GString [] then
        (case qb of
           None \<Rightarrow> Inl NilPointerDereference
         | Some b \<Rightarrow>
             (let b1 = (if length (args b) > 0
                        then b\<lparr>query := query b @ '' AND '' @ condition\<rparr>
                        else b\<lparr>query := query b @ '' WHERE '' @ condition\<rparr>)
              in Inr (Some (b1\<lparr>args := args b1 @ [val]\<rparr>))))
      else Inr qb)"

definition GroupBy_ptr ::
  "QueryBuilder option \<Rightarrow> string list \<Rightarrow> panic + QueryBuilder option" where
  "GroupBy_ptr qb columns =
     (if length columns > 0 then
        (case qb of
           None \<Rightarrow> Inl NilPointerDereference
         | Some b \<Rightarrow> Inr (Some (b\<lparr>query := query b @ '' GROUP BY '' @ Join columns '', ''\<rparr>)))
      else Inr qb)"

definition OrderBy_ptr ::
  "QueryBuilder option \<Rightarrow> string list \<Rightarrow> panic + QueryBuilder option" where
  "OrderBy_ptr qb columns =
     (if length columns > 0 then
        (case qb of
           None \<Rightarrow> Inl NilPointerDereference
         | Some b \<Rightarrow> Inr (Some (b\<lparr>query := query b @ '' ORDER BY '' @ Join columns '', ''\<rparr>)))
      else Inr qb)"

definition Build_ptr ::
  "QueryBuilder option \<Rightarrow> panic + ((string \<times> gvalue list) \<times> QueryBuilder option)" where
  "Build_ptr qb =
     (case qb of
        None \<Rightarrow> Inl NilPointerDereference
      | Some b \<Rightarrow> Inr ((query b, args b), qb))"

text \<open>
  A call of one of the four methods, and what it hands back to its caller: the receiver
  (for the three chaining methods) or the pair of \<open>Build\<close>. A program makes its calls
  one after the other on the same pointer, and a panic ends it.
\<close>

datatype call =
    CWhere string gvalue
  | CGroupBy "string list"
  | COrderBy "string list"
  | CBuild

datatype returned = Receiver | Pair string "gvalue list"

fun call_ptr :: "QueryBuilder option \<Rightarrow> call \<Rightarrow> panic + (returned \<times> QueryBuilder option)" where
  "call_ptr qb (CWhere condition val) =
     (case Where_ptr qb condition val of
        Inl e \<Rightarrow> Inl e
      | Inr qb' \<Rightarrow> Inr (Receiver, qb'))"
| "call_ptr qb (CGroupBy columns) =
     (case GroupBy_ptr qb columns of
        Inl e \<Rightarrow> Inl e
      | Inr qb' \<Rightarrow> Inr (Receiver, qb'))"
| "call_ptr qb (COrderBy columns) =
     (case OrderBy_ptr qb columns of
        Inl e \<Rightarrow> Inl e
      | Inr qb' \<Rightarrow> Inr (Receiver, qb'))"
| "call_ptr qb CBuild =
     (case Build_ptr qb of
        Inl e \<Rightarrow> Inl e
      | Inr r \<Rightarrow> Inr (Pair (fst (fst r)) (snd (fst r)), snd r))"

fun run_ptr ::
  "QueryBuilder option \<Rightarrow> call list \<Rightarrow> panic + (returned list \<times> QueryBuilder option)" where
  "run_ptr qb [] = Inr ([], qb)"
| "run_ptr qb (c # cs) =
     (case call_ptr qb c of
        Inl e \<Rightarrow> Inl e
      | Inr r \<Rightarrow>
          (case run_ptr (snd r) cs of
             Inl e \<Rightarrow> Inl e
           | Inr rs \<Rightarrow> Inr (fst r # fst rs, snd rs)))"

section \<open>Properties\<close>

subsection \<open>Auxiliary facts\<close>

lemma Where_accept:
  "v \<noteq> GString [] \<Longrightarrow>
   Where qb P v =
     \<lparr>query = query qb @ (if args qb = [] then '' WHERE '' else '' AND '') @ P,
      args = args qb @ [v]\<rparr>"
  by (simp add: Where_def)

lemma Where_skip: "Where qb P (GString []) = qb"
  by (simp add: Where_def)

lemma Wheres_Nil: "Wheres qb [] = qb"
  by (simp add: Wheres_def)

lemma Wheres_Cons: "Wheres qb (w # ws) = Wheres (Where qb (fst w) (snd w)) ws"
  by (simp add: Wheres_def)

lemma Wheres_args:
  "args (Wheres qb ws) = args qb @ map snd (accepted ws)"
proof (induction ws arbitrary: qb)
  case Nil
  show ?case by (simp add: Wheres_Nil accepted_def)
next
  case (Cons w ws)
  show ?case
  proof (cases "snd w = GString []")
    case True
    then show ?thesis
      using Cons.IH [of qb] by (simp add: Wheres_Cons Where_skip accepted_def)
  next
    case False
    then show ?thesis
      using Cons.IH [of "Where qb (fst w) (snd w)"]
      by (simp add: Wheres_Cons Where_accept accepted_def)
  qed
qed

lemma Wheres_query:
  "query (Wheres qb ws) = query qb @ concat (where_texts (args qb = []) (accepted ws))"
proof (induction ws arbitrary: qb)
  case Nil
  show ?case by (simp add: Wheres_Nil accepted_def)
next
  case (Cons w ws)
  show ?case
  proof (cases "snd w = GString []")
    case True
    then show ?thesis
      using Cons.IH [of qb] by (simp add: Wheres_Cons Where_skip accepted_def)
  next
    case False
    then show ?thesis
      using Cons.IH [of "Where qb (fst w) (snd w)"]
      by (simp add: Wheres_Cons Where_accept accepted_def)
  qed
qed

lemma Wheres_skipped:
  "Wheres qb (map (\<lambda>P. (P, GString [])) Ps) = qb"
  by (induction Ps) (simp_all add: Wheres_Nil Wheres_Cons Where_skip)

lemma map_snd_accepted:
  "map snd (accepted ws) = filter (\<lambda>v. v \<noteq> GString []) (map snd ws)"
  by (simp add: accepted_def filter_map comp_def)

lemma bind_args_append:
  "placeholders s = length vs \<Longrightarrow> bind_args (s @ t) (vs @ us) = bind_args s vs @ bind_args t us"
proof (induction s arbitrary: vs)
  case Nil
  then show ?case by (simp add: placeholders_def)
next
  case (Cons c s)
  show ?case
  proof (cases "c = CHR ''?''")
    case True
    with Cons.prems obtain v vs' where vs: "vs = v # vs'" and n: "placeholders s = length vs'"
      by (cases vs) (simp_all add: placeholders_def)
    show ?thesis using True vs Cons.IH [OF n] by simp
  next
    case False
    with Cons.prems have n: "placeholders s = length vs" by (simp add: placeholders_def)
    show ?thesis using False Cons.IH [OF n] by simp
  qed
qed

lemma bind_args_no_placeholder:
  "placeholders s = 0 \<Longrightarrow> bind_args s vs = map Inl s"
  by (induction s) (simp_all add: placeholders_def split: if_splits)

lemma placeholders_text:
  "placeholders ((if b then '' WHERE '' else '' AND '') @ P) = placeholders P"
  by (simp add: placeholders_def)

lemma bind_where_texts:
  "\<forall>w \<in> set acc. placeholders (fst w) = 1 \<Longrightarrow>
   bind_args (concat (where_texts b acc)) (map snd acc) =
     concat (map2 (\<lambda>t v. bind_args t [v]) (where_texts b acc) (map snd acc))"
proof (induction acc arbitrary: b)
  case Nil
  show ?case by simp
next
  case (Cons w acc)
  let ?t = "(if b then '' WHERE '' else '' AND '') @ fst w"
  have one: "placeholders ?t = length [snd w]"
    using Cons.prems by (simp add: placeholders_text del: append.simps)
  have "bind_args (?t @ concat (where_texts False acc)) ([snd w] @ map snd acc) =
        bind_args ?t [snd w] @ bind_args (concat (where_texts False acc)) (map snd acc)"
    by (rule bind_args_append [OF one])
  then show ?case using Cons.IH [of False] Cons.prems by simp
qed

lemma foldl_sep:
  "foldl (\<lambda>b s. b @ sep @ s) e es = e @ concat (map (\<lambda>s. sep @ s) es)"
  by (induction es arbitrary: e) simp_all

lemma Join_Cons: "Join (e # es) sep = e @ concat (map (\<lambda>s. sep @ s) es)"
  by (cases es) (simp_all add: foldl_sep)


lemma Where_ptr_Some: "Where_ptr (Some b) P v = Inr (Some (Where b P v))"
  by (simp add: Where_ptr_def Where_def Let_def)

lemma GroupBy_ptr_Some: "GroupBy_ptr (Some b) cols = Inr (Some (GroupBy b cols))"
  by (simp add: GroupBy_ptr_def GroupBy_def)

lemma OrderBy_ptr_Some: "OrderBy_ptr (Some b) cols = Inr (Some (OrderBy b cols))"
  by (simp add: OrderBy_ptr_def OrderBy_def)

lemma Build_ptr_Some: "Build_ptr (Some b) = Inr (fst (Build b), Some (snd (Build b)))"
  by (simp add: Build_ptr_def Build_def)

lemma call_ptr_Some: "\<exists>r b'. call_ptr (Some b) c = Inr (r, Some b')"
  by (cases c)
     (simp_all add: Where_ptr_Some GroupBy_ptr_Some OrderBy_ptr_Some Build_ptr_Some)

lemma run_ptr_Some:
  "\<exists>rs b'. run_ptr (Some b) cs = Inr (rs, Some b') \<and> length rs = length cs"
proof (induction cs arbitrary: b)
  case Nil
  show ?case by simp
next
  case (Cons c cs)
  obtain r b1 where step: "call_ptr (Some b) c = Inr (r, Some b1)"
    using call_ptr_Some [of b c] by blast
  obtain rs b2 where rest: "run_ptr (Some b1) cs = Inr (rs, Some b2)" and len: "length rs = length cs"
    using Cons.IH [of b1] by blast
  have "run_ptr (Some b) (c # cs) = Inr (r # rs, Some b2)"
    using step rest by simp
  then show ?case using len by simp
qed

subsection \<open>The claims of the specification\<close>

text \<open>
  C1. From \<open>NewQueryBuilder("SELECT a FROM t")\<close>, the calls \<open>Where("x=?", "")\<close>,
  \<open>Where("y=?", "5")\<close>, \<open>Where("z=?", "")\<close>, \<open>Where("w=?", "hi")\<close> and then
  \<open>Build()\<close> return the query \<open>"SELECT a FROM t WHERE y=? AND w=?"\<close> and the arguments
  \<open>["5", "hi"]\<close>.
\<close>

theorem mixed_filters_scenario:
  "fst (Build
     (Where
        (Where
           (Where
              (Where (NewQueryBuilder ''SELECT a FROM t'') ''x=?'' (GString []))
              ''y=?'' (GString ''5''))
           ''z=?'' (GString []))
        ''w=?'' (GString ''hi'')))
   = (''SELECT a FROM t WHERE y=? AND w=?'', [GString ''5'', GString ''hi''])"
  by (simp add: Build_def Where_def NewQueryBuilder_def)

text \<open>
  C2. For every builder state and every \<open>Where(P, v)\<close> with \<open>v\<close> other than the empty
  string, the connector appended before \<open>P\<close> is \<open>" WHERE "\<close> exactly when the argument
  sequence is empty at the call and \<open>" AND "\<close> exactly when it is not, and \<open>v\<close> is
  appended to the arguments. Calls with the empty string made before it, however many,
  leave its result as it would be without them; and after any chain of \<open>Where\<close> calls
  on a fresh builder the connector is \<open>" WHERE "\<close> exactly when every earlier call was
  skipped, whatever the number of calls.
\<close>

theorem where_connector:
  "v \<noteq> GString [] \<Longrightarrow>
   ((query (Where qb P v) = query qb @ '' WHERE '' @ P) = (args qb = [])) \<and>
   ((query (Where qb P v) = query qb @ '' AND '' @ P) = (args qb \<noteq> [])) \<and>
   args (Where qb P v) = args qb @ [v] \<and>
   Where (Wheres qb (map (\<lambda>P'. (P', GString [])) Ps)) P v = Where qb P v \<and>
   query (Where (Wheres (NewQueryBuilder Q) ws) P v) =
     query (Wheres (NewQueryBuilder Q) ws) @
     (if \<forall>w \<in> set ws. snd w = GString [] then '' WHERE '' else '' AND '') @ P"
proof -
  assume v: "v \<noteq> GString []"
  have fresh: "(args (Wheres (NewQueryBuilder Q) ws) = []) = (\<forall>w \<in> set ws. snd w = GString [])"
    by (simp add: Wheres_args NewQueryBuilder_def accepted_def filter_empty_conv)
  show ?thesis
    using v fresh by (simp add: Where_accept Wheres_skipped)
qed

text \<open>
  The statement above at the last call of the mixed scenario: one earlier call was
  accepted and two were skipped, and the connector is \<open>" AND "\<close>.
\<close>

theorem where_connector_witness:
  "GString ''5'' \<noteq> GString [] \<and>
   query (Where (Wheres (NewQueryBuilder ''SELECT a FROM t'')
                   [(''x=?'', GString []), (''y=?'', GString ''5''), (''z=?'', GString [])])
            ''w=?'' (GString ''hi''))
   = ''SELECT a FROM t WHERE y=? AND w=?''"
  using where_connector [of "GString ''hi''" "NewQueryBuilder ''SELECT a FROM t''" "''w=?''" "[]"
      "''SELECT a FROM t''" "[(''x=?'', GString []), (''y=?'', GString ''5''), (''z=?'', GString [])]"]
  by (simp add: Wheres_def Where_def NewQueryBuilder_def)

text \<open>
  C3. For every builder state and every predicate fragment \<open>P\<close>, \<open>Where(P, "")\<close>
  returns the builder as it was: the query string and the argument sequence are both
  unchanged.
\<close>

theorem where_empty_string_noop:
  "Where qb P (GString []) = qb"
  by (simp add: Where_def)

text \<open>
  C4, with the condition on the base query made explicit. For every chain of
  \<open>Where\<close> calls on a fresh builder, the argument sequence that \<open>Build()\<close> returns
  is exactly the subsequence of the bound values other than the empty string, in call
  order. When every accepted fragment contains exactly
  one placeholder, the placeholders of the text appended to the base query take the
  returned arguments in order, each fragment its own value; and when moreover the base
  query contains no placeholder, the same holds of the whole returned query string.
\<close>

theorem argument_order:
  "snd (fst (Build (Wheres (NewQueryBuilder Q) ws))) =
     filter (\<lambda>v. v \<noteq> GString []) (map snd ws) \<and>
   ((\<forall>w \<in> set (accepted ws). placeholders (fst w) = 1) \<longrightarrow>
      bind_args (drop (length Q) (fst (fst (Build (Wheres (NewQueryBuilder Q) ws)))))
        (snd (fst (Build (Wheres (NewQueryBuilder Q) ws)))) =
      concat (map2 (\<lambda>t v. bind_args t [v])
                (where_texts True (accepted ws))
                (snd (fst (Build (Wheres (NewQueryBuilder Q) ws))))) \<and>
      (placeholders Q = 0 \<longrightarrow> placeholders_match_arguments Q ws))"
proof -
  let ?ts = "where_texts True (accepted ws)"
  let ?vs = "map snd (accepted ws)"
  have a: "snd (fst (Build (Wheres (NewQueryBuilder Q) ws))) = ?vs"
    by (simp add: Build_def Wheres_args NewQueryBuilder_def)
  have q: "fst (fst (Build (Wheres (NewQueryBuilder Q) ws))) = Q @ concat ?ts"
    by (simp add: Build_def Wheres_query NewQueryBuilder_def)
  have b: "fst (Build (Wheres (NewQueryBuilder Q) ws)) = (Q @ concat ?ts, ?vs)"
    using a q by (simp add: prod_eq_iff)
  have first: "?vs = filter (\<lambda>v. v \<noteq> GString []) (map snd ws)"
    by (rule map_snd_accepted)
  have second: "bind_args (drop (length Q) (Q @ concat ?ts)) ?vs =
                concat (map2 (\<lambda>t v. bind_args t [v]) ?ts ?vs)"
    if "\<forall>w \<in> set (accepted ws). placeholders (fst w) = 1"
    using bind_where_texts [OF that, of True] by simp
  have third: "placeholders_match_arguments Q ws"
    if one: "\<forall>w \<in> set (accepted ws). placeholders (fst w) = 1" and none: "placeholders Q = 0"
  proof -
    have "bind_args (Q @ concat ?ts) ([] @ ?vs) = bind_args Q [] @ bind_args (concat ?ts) ?vs"
      by (rule bind_args_append) (simp add: none)
    then have "bind_args (Q @ concat ?ts) ?vs =
               map Inl Q @ concat (map2 (\<lambda>t v. bind_args t [v]) ?ts ?vs)"
      using bind_where_texts [OF one, of True] bind_args_no_placeholder [OF none, of "[]"]
      by simp
    then show ?thesis
      unfolding placeholders_match_arguments_def b by simp
  qed
  show ?thesis
    unfolding a q using first second third by blast
qed

text \<open>
  The statement above at the mixed scenario, whose base query has no placeholder and
  whose accepted fragments have one each.
\<close>

theorem argument_order_witness:
  "list_all (\<lambda>w. placeholders (fst w) = 1)
     (accepted [(''x=?'', GString []), (''y=?'', GString ''5''),
                (''z=?'', GString []), (''w=?'', GString ''hi'')]) \<and>
   placeholders ''SELECT a FROM t'' = 0 \<and>
   snd (fst (Build (Wheres (NewQueryBuilder ''SELECT a FROM t'')
      [(''x=?'', GString []), (''y=?'', GString ''5''),
       (''z=?'', GString []), (''w=?'', GString ''hi'')]))) = [GString ''5'', GString ''hi''] \<and>
   placeholders_match_arguments ''SELECT a FROM t''
      [(''x=?'', GString []), (''y=?'', GString ''5''),
       (''z=?'', GString []), (''w=?'', GString ''hi'')]"
  using argument_order [of "''SELECT a FROM t''"
      "[(''x=?'', GString []), (''y=?'', GString ''5''),
        (''z=?'', GString []), (''w=?'', GString ''hi'')]"]
  by (simp add: accepted_def placeholders_def)

text \<open>
  The condition on the base query is needed. \<open>NewQueryBuilder\<close> copies the base query
  and no method inspects it, so a placeholder of the base query comes first in the
  returned string: for the base query \<open>"SELECT ? FROM t"\<close> and the one call
  \<open>Where("y=?", "5")\<close>, whose fragment has exactly one placeholder, \<open>Build()\<close> returns
  \<open>"SELECT ? FROM t WHERE y=?"\<close> with the arguments \<open>["5"]\<close>, and the first placeholder
  of that string is not the one of the fragment.
\<close>

theorem base_placeholder_counterexample:
  "list_all (\<lambda>w. placeholders (fst w) = 1) (accepted [(''y=?'', GString ''5'')]) \<and>
   fst (Build (Wheres (NewQueryBuilder ''SELECT ? FROM t'') [(''y=?'', GString ''5'')])) =
     (''SELECT ? FROM t WHERE y=?'', [GString ''5'']) \<and>
   \<not> placeholders_match_arguments ''SELECT ? FROM t'' [(''y=?'', GString ''5'')]"
  by (simp add: placeholders_match_arguments_def accepted_def placeholders_def
        Build_def Wheres_def Where_def NewQueryBuilder_def)

text \<open>
  C5. \<open>GroupBy\<close> with no column returns the builder unchanged. \<open>GroupBy(c, cs...)\<close>
  appends \<open>" GROUP BY "\<close>, then \<open>c\<close>, then each further column after \<open>", "\<close>, in the
  order given, and leaves the arguments as they are. \<open>OrderBy\<close> does the same with
  \<open>" ORDER BY "\<close>. Neither is guarded against repetition: a second call with columns
  appends a second full clause.
\<close>

theorem group_by_order_by_contract:
  "GroupBy qb [] = qb \<and>
   GroupBy qb (c # cs) =
     \<lparr>query = query qb @ '' GROUP BY '' @ c @ concat (map (\<lambda>x. '', '' @ x) cs),
      args = args qb\<rparr> \<and>
   OrderBy qb [] = qb \<and>
   OrderBy qb (c # cs) =
     \<lparr>query = query qb @ '' ORDER BY '' @ c @ concat (map (\<lambda>x. '', '' @ x) cs),
      args = args qb\<rparr> \<and>
   query (GroupBy (GroupBy qb (c # cs)) (d # ds)) =
     query qb @ '' GROUP BY '' @ c @ concat (map (\<lambda>x. '', '' @ x) cs)
              @ '' GROUP BY '' @ d @ concat (map (\<lambda>x. '', '' @ x) ds) \<and>
   query (OrderBy (OrderBy qb (c # cs)) (d # ds)) =
     query qb @ '' ORDER BY '' @ c @ concat (map (\<lambda>x. '', '' @ x) cs)
              @ '' ORDER BY '' @ d @ concat (map (\<lambda>x. '', '' @ x) ds)"
  by (simp add: GroupBy_def OrderBy_def Join_Cons del: Join.simps)

text \<open>
  C6. \<open>Where(P, v)\<close> returns the builder unchanged exactly when \<open>v\<close> is the empty
  string; every other value is accepted, which appends the connector and \<open>P\<close> to the
  query and \<open>v\<close> to the arguments. In particular the integer zero is accepted.
\<close>

theorem sentinel_is_empty_string:
  "(Where qb P v = qb) = (v = GString []) \<and>
   Where qb P v =
     (if v = GString [] then qb
      else \<lparr>query = query qb @ (if args qb = [] then '' WHERE '' else '' AND '') @ P,
            args = args qb @ [v]\<rparr>) \<and>
   Where qb P (GInt 0) =
     \<lparr>query = query qb @ (if args qb = [] then '' WHERE '' else '' AND '') @ P,
      args = args qb @ [GInt 0]\<rparr>"
proof (cases "v = GString []")
  case True
  then show ?thesis by (simp add: Where_skip Where_accept)
next
  case False
  have "args (Where qb P v) \<noteq> args qb"
    using False by (simp add: Where_accept)
  then have "Where qb P v \<noteq> qb" by auto
  then show ?thesis
    using False by (simp add: Where_accept)
qed

text \<open>
  C7. For every base query \<open>Q\<close>, \<open>Build()\<close> on \<open>NewQueryBuilder(Q)\<close> with no call in
  between returns the base query unchanged and an empty argument sequence.
\<close>

theorem fresh_builder_build:
  "fst (Build (NewQueryBuilder Q)) = (Q, [])"
  by (simp add: Build_def NewQueryBuilder_def)

text \<open>
  C8. After a call of \<open>Where\<close>, \<open>GroupBy\<close> or \<open>OrderBy\<close>, the query string before
  the call is a prefix of the query string after it, and so are the argument sequences.
  \<open>Build\<close> leaves the builder as it was, so a second \<open>Build\<close> returns the same pair as
  the first.
\<close>

theorem append_only_snapshot:
  "prefix (query qb) (query (Where qb P v)) \<and>
   prefix (args qb) (args (Where qb P v)) \<and>
   prefix (query qb) (query (GroupBy qb cols)) \<and>
   prefix (args qb) (args (GroupBy qb cols)) \<and>
   prefix (query qb) (query (OrderBy qb cols)) \<and>
   prefix (args qb) (args (OrderBy qb cols)) \<and>
   snd (Build qb) = qb \<and>
   fst (Build (snd (Build qb))) = fst (Build qb)"
  by (simp add: Where_def GroupBy_def OrderBy_def Build_def)

text \<open>
  C9, for a receiver that is not \<open>nil\<close>. \<open>NewQueryBuilder\<close> returns a pointer that is
  not \<open>nil\<close>, for every base query. On a receiver that is not \<open>nil\<close>, every call of
  \<open>Where\<close>, \<open>GroupBy\<close>, \<open>OrderBy\<close> and \<open>Build\<close> returns, with any arguments, without a
  panic; it returns what the functions on builder states compute and leaves a receiver
  that is not \<open>nil\<close>. So every program of such calls on a builder made by
  \<open>NewQueryBuilder\<close>, in any order and number and with any fragments, values and
  columns, runs to its end, one result for each call.
\<close>

theorem calls_on_builder_succeed:
  "NewQueryBuilder_ptr Q = Some (NewQueryBuilder Q) \<and>
   Where_ptr (Some b) P v = Inr (Some (Where b P v)) \<and>
   GroupBy_ptr (Some b) cols = Inr (Some (GroupBy b cols)) \<and>
   OrderBy_ptr (Some b) cols = Inr (Some (OrderBy b cols)) \<and>
   Build_ptr (Some b) = Inr (fst (Build b), Some b) \<and>
   (\<exists>rs b'. run_ptr (NewQueryBuilder_ptr Q) cs = Inr (rs, Some b') \<and> length rs = length cs)"
proof -
  have new: "NewQueryBuilder_ptr Q = Some (NewQueryBuilder Q)"
    by (simp add: NewQueryBuilder_ptr_def NewQueryBuilder_def)
  have build: "Build_ptr (Some b) = Inr (fst (Build b), Some b)"
    by (simp add: Build_ptr_def Build_def)
  have run: "\<exists>rs b'. run_ptr (NewQueryBuilder_ptr Q) cs = Inr (rs, Some b') \<and> length rs = length cs"
    unfolding new by (rule run_ptr_Some)
  show ?thesis
    using new build run
    by (simp add: Where_ptr_Some GroupBy_ptr_Some OrderBy_ptr_Some)
qed

text \<open>
  The statement above at a program with the inputs the specification calls malformed:
  a fragment without a placeholder and a second \<open>GroupBy\<close>, before \<open>Build\<close>.
\<close>

theorem calls_on_builder_succeed_witness:
  "(\<exists>rs b'. run_ptr (NewQueryBuilder_ptr ''SELECT a FROM t'')
               [CWhere ''a IS NULL'' (GInt 1), CGroupBy [''a''], CGroupBy [''b''], CBuild] =
             Inr (rs, Some b') \<and>
            length rs =
              length [CWhere ''a IS NULL'' (GInt 1), CGroupBy [''a''], CGroupBy [''b''], CBuild]) \<and>
   run_ptr (NewQueryBuilder_ptr ''SELECT a FROM t'')
     [CWhere ''a IS NULL'' (GInt 1), CGroupBy [''a''], CGroupBy [''b''], CBuild] =
   Inr ([Receiver, Receiver, Receiver,
         Pair ''SELECT a FROM t WHERE a IS NULL GROUP BY a GROUP BY b'' [GInt 1]],
        Some \<lparr>query = ''SELECT a FROM t WHERE a IS NULL GROUP BY a GROUP BY b'',
              args = [GInt 1]\<rparr>)"
proof -
  have returns:
    "\<exists>rs b'. run_ptr (NewQueryBuilder_ptr ''SELECT a FROM t'')
               [CWhere ''a IS NULL'' (GInt 1), CGroupBy [''a''], CGroupBy [''b''], CBuild] =
             Inr (rs, Some b') \<and>
            length rs =
              length [CWhere ''a IS NULL'' (GInt 1), CGroupBy [''a''], CGroupBy [''b''], CBuild]"
    using calls_on_builder_succeed [of "''SELECT a FROM t''"
        "NewQueryBuilder ''SELECT a FROM t''" "''a IS NULL''" "GInt 1" "[''a'']"
        "[CWhere ''a IS NULL'' (GInt 1), CGroupBy [''a''], CGroupBy [''b''], CBuild]"]
    by (elim conjE)
  have result:
    "run_ptr (NewQueryBuilder_ptr ''SELECT a FROM t'')
       [CWhere ''a IS NULL'' (GInt 1), CGroupBy [''a''], CGroupBy [''b''], CBuild] =
     Inr ([Receiver, Receiver, Receiver,
           Pair ''SELECT a FROM t WHERE a IS NULL GROUP BY a GROUP BY b'' [GInt 1]],
          Some \<lparr>query = ''SELECT a FROM t WHERE a IS NULL GROUP BY a GROUP BY b'',
                args = [GInt 1]\<rparr>)"
    by (simp add: NewQueryBuilder_ptr_def Where_ptr_def GroupBy_ptr_def Build_ptr_def)
  from returns result show ?thesis by (rule conjI)
qed

text \<open>
  The receiver has to be excluded from "every input". On the \<open>nil\<close> receiver
  \<open>Build\<close> reads \<open>qb.query\<close>, \<open>Where\<close> with an accepted value reads \<open>qb.args\<close> and
  \<open>GroupBy\<close> and \<open>OrderBy\<close> with a column read \<open>qb.query\<close>, and each of them panics.
\<close>

theorem nil_receiver_counterexample:
  "Build_ptr None = Inl NilPointerDereference \<and>
   Where_ptr None ''x=?'' (GString ''5'') = Inl NilPointerDereference \<and>
   GroupBy_ptr None [''a''] = Inl NilPointerDereference \<and>
   OrderBy_ptr None [''a''] = Inl NilPointerDereference \<and>
   run_ptr None [CBuild] = Inl NilPointerDereference"
  by (simp add: Build_ptr_def Where_ptr_def GroupBy_ptr_def OrderBy_ptr_def)

text \<open>
  C10. \<open>Where(P, nil)\<close> is accepted on every builder: the connector and \<open>P\<close> are
  appended to the query and \<open>nil\<close> to the arguments. So is a value of a defined type
  whose underlying value is the empty string, since its dynamic type is not \<open>string\<close>.
\<close>

theorem nil_is_accepted:
  "Where qb P GNil =
     \<lparr>query = query qb @ (if args qb = [] then '' WHERE '' else '' AND '') @ P,
      args = args qb @ [GNil]\<rparr> \<and>
   Where qb P (GNamed n (GString [])) =
     \<lparr>query = query qb @ (if args qb = [] then '' WHERE '' else '' AND '') @ P,
      args = args qb @ [GNamed n (GString [])]\<rparr>"
  by (simp add: Where_def)

end
